theory Spec2Isabelle
  imports Complex_Main "HOL-Library.Sublist"
begin

section \<open>Data model\<close>

text \<open>
  The program is \<^verbatim>\<open>src/ssd/build_engine.py\<close>. It rewrites a frozen SSD detection graph
  with the graphsurgeon library and hands the result to the UFF exporter and the TensorRT
  builder. A node carries a name, an operator kind, an ordered list of input references
  and a list of attributes; a graph owns its nodes in insertion order together with the
  ordered sequence of its designated outputs, kept as node names.

  Python float literals are modelled by the decimal fraction they are written as, so
  \<^verbatim>\<open>0.3\<close> is the real number 3/10; the program never computes with them.
\<close>

datatype attr_value =
    IntV int
  | FloatV real
  | IntListV "int list"
  | FloatListV "real list"

record node =
  name :: string
  op :: string
  input :: "string list"
  attr :: "(string \<times> attr_value) list"

record graph =
  nodes :: "node list"
  graph_outputs :: "string list"

datatype error =
    IndexError
  | RuntimeError string
  | ConfigurationError
  | UnknownModel

section \<open>The graph library\<close>

text \<open>
  \<^verbatim>\<open>graphsurgeon\<close> is imported by the program and is not part of its sources. Its
  operations are modelled here from sections 3 and 4 of the specification.
\<close>

definition create_node :: "string \<Rightarrow> string \<Rightarrow> (string \<times> attr_value) list \<Rightarrow> node" where
  \<comment> \<open>Modelled from the spec: \<^verbatim>\<open>gs.create_node(name, op, **attrs)\<close> is missing; a new
      node has the given name, kind and attributes and no inputs.\<close>
  "create_node nm k attrs = \<lparr>name = nm, op = k, input = [], attr = attrs\<rparr>"

definition create_plugin_node :: "string \<Rightarrow> string \<Rightarrow> (string \<times> attr_value) list \<Rightarrow> node" where
  \<comment> \<open>Modelled from the spec: \<^verbatim>\<open>gs.create_plugin_node(name, op, **attrs)\<close> is missing;
      section 4.5: plugin nodes are inert data carrying their attributes, with no inputs.\<close>
  "create_plugin_node nm k attrs = \<lparr>name = nm, op = k, input = [], attr = attrs\<rparr>"

definition update_node :: "node \<Rightarrow> string \<Rightarrow> node" where
  \<comment> \<open>Modelled from the spec: \<^verbatim>\<open>gs.update_node(node, op=...)\<close> is missing; section 4.2:
      the kind tag is replaced, attributes untouched.\<close>
  "update_node n k = n\<lparr>op := k\<rparr>"

definition find_nodes_by_op :: "graph \<Rightarrow> string \<Rightarrow> node list" where
  \<comment> \<open>Modelled from the spec: \<^verbatim>\<open>graph.find_nodes_by_op(kind)\<close> is missing; the nodes
      tagged with the kind, in graph order.\<close>
  "find_nodes_by_op g k = filter (\<lambda>n. op n = k) (nodes g)"

definition find_nodes_by_name :: "graph \<Rightarrow> string \<Rightarrow> node list" where
  \<comment> \<open>Modelled from the spec: \<^verbatim>\<open>graph.find_nodes_by_name(name)\<close> is missing; the nodes
      with exactly this name, in graph order.\<close>
  "find_nodes_by_name g nm = filter (\<lambda>n. name n = nm) (nodes g)"

definition under_key :: "string \<Rightarrow> string \<Rightarrow> bool" where
  \<comment> \<open>Section 4.6: a name lies under a key when it equals the key or starts with the key
      followed by a slash.\<close>
  "under_key key nm = (nm = key \<or> take (length key + 1) nm = key @ ''/'')"

definition find_nodes_by_path :: "graph \<Rightarrow> string list \<Rightarrow> node list" where
  \<comment> \<open>Modelled from the spec: \<^verbatim>\<open>graph.find_nodes_by_path(paths)\<close> is missing; section 4.1,
      \<^verbatim>\<open>find_nodes_by_name_or_prefix\<close>.\<close>
  "find_nodes_by_path g paths = filter (\<lambda>n. list_ex (\<lambda>p. under_key p (name n)) paths) (nodes g)"

definition ref_name :: "string \<Rightarrow> string" where
  \<comment> \<open>Section 3: an input reference is \<^verbatim>\<open>producer\<close> or \<^verbatim>\<open>producer:index\<close>.\<close>
  "ref_name r = takeWhile (\<lambda>c. c \<noteq> CHR '':'') r"

definition append_node :: "graph \<Rightarrow> node \<Rightarrow> graph" where
  \<comment> \<open>Modelled from the spec: \<^verbatim>\<open>graph.append(node)\<close> is missing; the node is added last,
      the designated outputs stay.\<close>
  "append_node g n = g\<lparr>nodes := nodes g @ [n]\<rparr>"

definition remove_outright :: "graph \<Rightarrow> string list \<Rightarrow> graph" where
  \<comment> \<open>Section 4.3, first step: the named nodes are removed and detached from every input
      list; a removed node is no longer a designated output.\<close>
  "remove_outright g names =
     g\<lparr>nodes := map (\<lambda>n. n\<lparr>input := filter (\<lambda>r. ref_name r \<notin> set names) (input n)\<rparr>)
                  (filter (\<lambda>n. name n \<notin> set names) (nodes g)),
       graph_outputs := filter (\<lambda>x. x \<notin> set names) (graph_outputs g)\<rparr>"

definition dead_nodes :: "graph \<Rightarrow> node list" where
  \<comment> \<open>Section 4.3: nodes with zero remaining consumers that are not in the output set.\<close>
  "dead_nodes g =
     filter (\<lambda>n. \<not> list_ex (\<lambda>m. name n \<in> set (map ref_name (input m))) (nodes g)
                 \<and> name n \<notin> set (graph_outputs g)) (nodes g)"

function sweep :: "graph \<Rightarrow> graph" where
  "sweep g = (if dead_nodes g = [] then g
              else sweep (remove_outright g (map name (dead_nodes g))))"
  by pat_completeness auto
termination
proof (relation "measure (\<lambda>g. length (nodes g))")
  show "wf (measure (\<lambda>g. length (nodes g)))" by simp
next
  fix g :: graph
  assume "dead_nodes g \<noteq> []"
  then obtain n where "n \<in> set (dead_nodes g)"
    by (cases "dead_nodes g") auto
  then have n: "n \<in> set (nodes g)" "name n \<in> set (map name (dead_nodes g))"
    by (auto simp: dead_nodes_def)
  have "length (filter (\<lambda>m. name m \<notin> set (map name (dead_nodes g))) (nodes g)) < length (nodes g)"
    using n by (intro length_filter_less[of n]) auto
  then show "(remove_outright g (map name (dead_nodes g)), g) \<in> measure (\<lambda>g. length (nodes g))"
    by (simp add: remove_outright_def)
qed

definition remove_nodes :: "graph \<Rightarrow> string list \<Rightarrow> bool \<Rightarrow> graph" where
  \<comment> \<open>Modelled from the spec: \<^verbatim>\<open>graph.remove(nodes, remove_exclusive_dependencies)\<close> is
      missing; section 4.3: the requested nodes are removed outright, and with cascade the
      graph is swept for dead nodes until a fixed point.\<close>
  "remove_nodes g names cascade =
     (let g1 = remove_outright g names in if cascade then sweep g1 else g1)"

definition forward_one :: "graph \<Rightarrow> string \<Rightarrow> error + graph" where
  \<comment> \<open>Section 4.4 for one pass-through node N with the single input R: every reference to N
      or N:k in another node becomes R, then N is removed. A node with another number of
      inputs is the fatal configuration error.\<close>
  "forward_one g nm =
     (case find_nodes_by_name g nm of
        [] \<Rightarrow> Inr g
      | n # _ \<Rightarrow>
          (case input n of
             [r] \<Rightarrow>
               Inr (remove_outright
                 (g\<lparr>nodes := map (\<lambda>m. if name m = nm then m
                          else m\<lparr>input := map (\<lambda>x. if ref_name x = nm then r else x) (input m)\<rparr>)
                        (nodes g)\<rparr>) [nm])
           | _ \<Rightarrow> Inl ConfigurationError))"

fun forward_inputs :: "graph \<Rightarrow> string list \<Rightarrow> error + graph" where
  \<comment> \<open>Modelled from the spec: \<^verbatim>\<open>graph.forward_inputs(nodes)\<close> is missing; section 4.4,
      applied to the given nodes in order.\<close>
  "forward_inputs g [] = Inr g"
| "forward_inputs g (nm # rest) =
     (case forward_one g nm of Inl e \<Rightarrow> Inl e | Inr g' \<Rightarrow> forward_inputs g' rest)"

definition find_node_inputs_by_name :: "graph \<Rightarrow> string \<Rightarrow> string \<Rightarrow> node list" where
  \<comment> \<open>Modelled from the spec: \<^verbatim>\<open>graph.find_node_inputs_by_name(node, name)\<close> is missing;
      section 4.6 (c): the producers directly upstream of the node that carry the name, in
      the order of the node's input list. The node is given by its name.\<close>
  "find_node_inputs_by_name g out nm =
     (case find_nodes_by_name g out of
        [] \<Rightarrow> []
      | n # _ \<Rightarrow> concat (map (\<lambda>r. filter (\<lambda>m. name m = ref_name r \<and> name m = nm) (nodes g))
                             (input n)))"

definition first_seen :: "'a list \<Rightarrow> 'a list" where
  \<comment> \<open>Duplicates dropped, each element kept at its first position.\<close>
  "first_seen xs = rev (remdups (rev xs))"

fun longest_match ::
  "(string \<times> node) list \<Rightarrow> string \<Rightarrow> (string \<times> node) option \<Rightarrow> (string \<times> node) option" where
  "longest_match [] nm best = best"
| "longest_match ((k, p) # rest) nm best =
     longest_match rest nm
       (if under_key k nm \<and> (case best of None \<Rightarrow> True | Some (k', _) \<Rightarrow> length k' < length k)
        then Some (k, p) else best)"

definition plugin_of :: "(string \<times> node) list \<Rightarrow> string \<Rightarrow> node option" where
  \<comment> \<open>Section 4.6: the replacement of the key a name lies under; of several matching keys
      the most specific (longest) wins, so an exact-name key beats a prefix key.\<close>
  "plugin_of nsmap nm = map_option snd (longest_match nsmap nm None)"

definition rewrite_ref :: "(string \<times> node) list \<Rightarrow> string \<Rightarrow> string" where
  \<comment> \<open>A reference to a removed inside node points at the replacement afterwards. The key is
      matched against the reference as it is written, so \<^verbatim>\<open>image_tensor:0\<close> does not lie
      under the key \<^verbatim>\<open>image_tensor\<close>: the residual edge of section 4.6 (b).\<close>
  "rewrite_ref nsmap r = (case plugin_of nsmap r of None \<Rightarrow> r | Some p \<Rightarrow> name p)"

definition inside :: "(string \<times> node) list \<Rightarrow> node \<Rightarrow> node \<Rightarrow> bool" where
  "inside nsmap p n = (case plugin_of nsmap (name n) of None \<Rightarrow> False | Some q \<Rightarrow> name q = name p)"

definition boundary_inputs :: "(string \<times> node) list \<Rightarrow> node \<Rightarrow> node list \<Rightarrow> string list" where
  \<comment> \<open>Section 4.6: the external producers the inside nodes consumed, deduplicated, in
      first-seen order; references inside the same replacement are no inputs of it.\<close>
  "boundary_inputs nsmap p ns =
     first_seen (filter (\<lambda>r. r \<noteq> name p)
       (map (rewrite_ref nsmap) (concat (map input (filter (inside nsmap p) ns)))))"

fun collapse_nodes ::
  "(string \<times> node) list \<Rightarrow> node list \<Rightarrow> string list \<Rightarrow> node list \<Rightarrow> node list" where
  "collapse_nodes nsmap all seen [] = []"
| "collapse_nodes nsmap all seen (n # ns) =
     (case plugin_of nsmap (name n) of
        None \<Rightarrow> n\<lparr>input := map (rewrite_ref nsmap) (input n)\<rparr> # collapse_nodes nsmap all seen ns
      | Some p \<Rightarrow>
          if name p \<in> set seen then collapse_nodes nsmap all seen ns
          else p\<lparr>input := input p @ boundary_inputs nsmap p all\<rparr>
                 # collapse_nodes nsmap all (name p # seen) ns)"

definition collapse_namespaces :: "graph \<Rightarrow> (string \<times> node) list \<Rightarrow> graph" where
  \<comment> \<open>Modelled from the spec: \<^verbatim>\<open>graph.collapse_namespaces(namespace_map)\<close> is missing;
      section 4.6: the matched nodes are removed, one replacement stands where the first
      of them stood, boundary edges and output references are rewired to it.\<close>
  "collapse_namespaces g nsmap =
     \<lparr>nodes = collapse_nodes nsmap (nodes g) [] (nodes g),
      graph_outputs = first_seen (map (rewrite_ref nsmap) (graph_outputs g))\<rparr>"

section \<open>Model registry\<close>

record model_spec =
  input_pb :: string
  tmp_uff :: string
  output_bin :: string
  num_classes :: int
  min_size :: real
  max_size :: real
  input_order :: "int list"

definition spec_entry :: "string \<Rightarrow> string \<Rightarrow> int \<Rightarrow> real \<Rightarrow> real \<Rightarrow> int list \<Rightarrow> string \<times> model_spec" where
  \<comment> \<open>One entry of \<^verbatim>\<open>MODEL_SPECS\<close>; the three paths are the model's name with a fixed
      prefix and suffix under \<^verbatim>\<open>DIR_NAME\<close>.\<close>
  "spec_entry dir_name model n lo hi ord =
     (model, \<lparr>input_pb = dir_name @ ''/'' @ model @ ''.pb'',
              tmp_uff = dir_name @ ''/'' @ model @ ''.uff'',
              output_bin = dir_name @ ''/TRT_'' @ model @ ''.bin'',
              num_classes = n, min_size = lo, max_size = hi, input_order = ord\<rparr>)"

definition MODEL_SPECS :: "string \<Rightarrow> (string \<times> model_spec) list" where
  "MODEL_SPECS dir_name =
     [spec_entry dir_name ''ssd_mobilenet_v1_coco'' 91 0.2 0.95 [0, 2, 1],
      spec_entry dir_name ''ssd_mobilenet_v1_egohands'' 2 0.05 0.95 [0, 2, 1],
      spec_entry dir_name ''ssd_mobilenet_v2_coco'' 91 0.2 0.95 [1, 0, 2],
      spec_entry dir_name ''ssd_mobilenet_v2_egohands'' 2 0.05 0.95 [0, 2, 1],
      spec_entry dir_name ''ssd_inception_v2_coco'' 91 0.2 0.95 [0, 2, 1],
      spec_entry dir_name ''ssdlite_mobilenet_v2_coco'' 91 0.2 0.95 [0, 2, 1]]"

definition INPUT_DIMS :: "int list" where
  "INPUT_DIMS = [3, 300, 300]"

section \<open>Op rewriting and the anchor input\<close>

definition replace_addv2 :: "graph \<Rightarrow> graph" where
  "replace_addv2 g =
     g\<lparr>nodes := map (\<lambda>n. if n \<in> set (find_nodes_by_op g ''AddV2'') then update_node n ''Add'' else n)
                  (nodes g)\<rparr>"

definition replace_fusedbnv3 :: "graph \<Rightarrow> graph" where
  "replace_fusedbnv3 g =
     g\<lparr>nodes := map (\<lambda>n. if n \<in> set (find_nodes_by_op g ''FusedBatchNormV3'')
                          then update_node n ''FusedBatchNorm'' else n)
                  (nodes g)\<rparr>"

fun update_first :: "('a \<Rightarrow> bool) \<Rightarrow> ('a \<Rightarrow> 'a) \<Rightarrow> 'a list \<Rightarrow> 'a list" where
  \<comment> \<open>An in-place change of the object \<^verbatim>\<open>find_...(...)[0]\<close>: the first node found.\<close>
  "update_first P f [] = []"
| "update_first P f (x # xs) = (if P x then f x # xs else x # update_first P f xs)"

definition add_anchor_input :: "graph \<Rightarrow> error + graph" where
  "add_anchor_input g =
     (let anchor_input = create_node ''AnchorInput'' ''Const'' [(''value'', FloatListV [1, 1])];
          g1 = append_node g anchor_input
      in case find_nodes_by_op g1 ''GridAnchor_TRT'' of
           [] \<Rightarrow> Inl IndexError
         | _ # _ \<Rightarrow>
             Inr (g1\<lparr>nodes := update_first (\<lambda>n. op n = ''GridAnchor_TRT'')
                                  (\<lambda>n. n\<lparr>input := ''AnchorInput'' # input n\<rparr>) (nodes g1)\<rparr>))"

section \<open>Plugin nodes\<close>

definition Input :: node where
  "Input = create_plugin_node ''Input'' ''Placeholder'' [(''shape'', IntListV (1 # INPUT_DIMS))]"

definition PriorBox :: "model_spec \<Rightarrow> node" where
  "PriorBox spec =
     create_plugin_node ''MultipleGridAnchorGenerator'' ''GridAnchor_TRT''
       [(''minSize'', FloatV (min_size spec)),
        (''maxSize'', FloatV (max_size spec)),
        (''aspectRatios'', FloatListV [1.0, 2.0, 0.5, 3.0, 0.33]),
        (''variance'', FloatListV [0.1, 0.1, 0.2, 0.2]),
        (''featureMapShapes'', IntListV [19, 10, 5, 3, 2, 1]),
        (''numLayers'', IntV 6)]"

definition NMS :: "model_spec \<Rightarrow> node" where
  "NMS spec =
     create_plugin_node ''NMS'' ''NMS_TRT''
       [(''shareLocation'', IntV 1),
        (''varianceEncodedInTarget'', IntV 0),
        (''backgroundLabelId'', IntV 0),
        (''confidenceThreshold'', FloatV 0.3),
        (''nmsThreshold'', FloatV 0.6),
        (''topK'', IntV 100),
        (''keepTopK'', IntV 100),
        (''numClasses'', IntV (num_classes spec)),
        (''inputOrder'', IntListV (input_order spec)),
        (''confSigmoid'', IntV 1),
        (''isNormalized'', IntV 1)]"

definition concat_priorbox :: node where
  "concat_priorbox = create_node ''concat_priorbox'' ''ConcatV2'' [(''axis'', IntV 2)]"

definition flatten_concat :: "char \<Rightarrow> string \<Rightarrow> node" where
  \<comment> \<open>Both branches of \<^verbatim>\<open>if trt.__version__[0] >= '7'\<close>; the argument is that first
      character of the TensorRT version.\<close>
  "flatten_concat trt_major nm =
     (if (of_char CHR ''7'' :: nat) \<le> of_char trt_major
      then create_plugin_node nm ''FlattenConcat_TRT'' [(''axis'', IntV 1), (''ignoreBatch'', IntV 0)]
      else create_plugin_node nm ''FlattenConcat_TRT'' [])"

definition concat_box_loc :: "char \<Rightarrow> node" where
  "concat_box_loc trt_major = flatten_concat trt_major ''concat_box_loc''"

definition concat_box_conf :: "char \<Rightarrow> node" where
  "concat_box_conf trt_major = flatten_concat trt_major ''concat_box_conf''"

definition namespace_plugin_map :: "char \<Rightarrow> model_spec \<Rightarrow> (string \<times> node) list" where
  "namespace_plugin_map trt_major spec =
     [(''MultipleGridAnchorGenerator'', PriorBox spec),
      (''Postprocessor'', NMS spec),
      (''Preprocessor'', Input),
      (''ToFloat'', Input),
      (''Cast'', Input),
      (''image_tensor'', Input),
      (''MultipleGridAnchorGenerator/Concatenate'', concat_priorbox),
      (''Concatenate'', concat_priorbox),
      (''concat'', concat_box_loc trt_major),
      (''concat_1'', concat_box_conf trt_major)]"

section \<open>The pipeline\<close>

text \<open>
  \<^verbatim>\<open>add_plugin\<close> is a fixed sequence of statements over one graph that is changed in
  place. Each statement that touches the graph is a pass; a run executes the passes in
  the order of the source and stops at the first one that raises. The run returns the
  passes it started, in order, next to its outcome, so that claims about the order of
  passes are claims about every run.
\<close>

datatype pass =
    RemoveAsserts
  | ForwardIdentities
  | RemoveGather
  | CollapseNamespaces
  | ReplaceAddV2
  | ReplaceFusedBNV3
  | StripInputEdge
  | StripNMSEdge
  | ForwardSqueeze
  | DropAnchors
  | AnchorInput
  | CheckOutputs

definition remove_asserts :: "graph \<Rightarrow> graph" where
  \<comment> \<open>lines 153-154\<close>
  "remove_asserts g = remove_nodes g (map name (find_nodes_by_op g ''Assert'')) True"

definition forward_identities :: "graph \<Rightarrow> error + graph" where
  \<comment> \<open>lines 156-157\<close>
  "forward_identities g = forward_inputs g (map name (find_nodes_by_op g ''Identity''))"

definition remove_gather :: "graph \<Rightarrow> graph" where
  \<comment> \<open>line 239\<close>
  "remove_gather g =
     remove_nodes g
       (map name (find_nodes_by_path g [''Preprocessor/map/TensorArrayStack_1/TensorArrayGatherV3'']))
       False"

definition strip_edge :: "graph \<Rightarrow> string \<Rightarrow> string \<Rightarrow> error + graph" where
  \<comment> \<open>lines 245-246 and 247-248: \<^verbatim>\<open>if r in find_nodes_by_name(nm)[0].input:
      find_nodes_by_name(nm)[0].input.remove(r)\<close>. Indexing an empty result raises
      IndexError; \<^verbatim>\<open>list.remove\<close> deletes the first occurrence only.\<close>
  "strip_edge g nm r =
     (case find_nodes_by_name g nm of
        [] \<Rightarrow> Inl IndexError
      | n # _ \<Rightarrow>
          if r \<in> set (input n)
          then Inr (g\<lparr>nodes := update_first (\<lambda>m. name m = nm)
                                  (\<lambda>m. m\<lparr>input := remove1 r (input m)\<rparr>) (nodes g)\<rparr>)
          else Inr g)"

definition forward_squeeze :: "graph \<Rightarrow> error + graph" where
  \<comment> \<open>line 250; \<^verbatim>\<open>graph.graph_outputs[0]\<close> raises IndexError on an empty list.\<close>
  "forward_squeeze g =
     (case graph_outputs g of
        [] \<Rightarrow> Inl IndexError
      | out # _ \<Rightarrow> forward_inputs g (map name (find_node_inputs_by_name g out ''Squeeze'')))"

definition drop_anchors :: "graph \<Rightarrow> graph" where
  \<comment> \<open>lines 251-252\<close>
  "drop_anchors g =
     (if ''anchors'' \<in> set (graph_outputs g) then remove_nodes g [''anchors''] False else g)"

definition anchor_repair :: "graph \<Rightarrow> error + graph" where
  \<comment> \<open>lines 253-254\<close>
  "anchor_repair g =
     (case find_nodes_by_op g ''GridAnchor_TRT'' of
        [] \<Rightarrow> Inl IndexError
      | n # _ \<Rightarrow> if length (input n) < 1 then add_anchor_input g else Inr g)"

definition check_outputs :: "graph \<Rightarrow> error + graph" where
  \<comment> \<open>lines 255-261\<close>
  "check_outputs g =
     (if ''NMS'' \<notin> set (graph_outputs g)
      then (let g1 = remove_nodes g (graph_outputs g) False
            in if ''NMS'' \<notin> set (graph_outputs g1)
               then Inl (RuntimeError ''bad graph_outputs'')
               else Inr g1)
      else Inr g)"

fun run_pass :: "char \<Rightarrow> model_spec \<Rightarrow> pass \<Rightarrow> graph \<Rightarrow> error + graph" where
  "run_pass trt_major spec RemoveAsserts g = Inr (remove_asserts g)"
| "run_pass trt_major spec ForwardIdentities g = forward_identities g"
| "run_pass trt_major spec RemoveGather g = Inr (remove_gather g)"
| "run_pass trt_major spec CollapseNamespaces g =
     Inr (collapse_namespaces g (namespace_plugin_map trt_major spec))"
| "run_pass trt_major spec ReplaceAddV2 g = Inr (replace_addv2 g)"
| "run_pass trt_major spec ReplaceFusedBNV3 g = Inr (replace_fusedbnv3 g)"
| "run_pass trt_major spec StripInputEdge g = strip_edge g ''Input'' ''image_tensor:0''"
| "run_pass trt_major spec StripNMSEdge g = strip_edge g ''NMS'' ''Input''"
| "run_pass trt_major spec ForwardSqueeze g = forward_squeeze g"
| "run_pass trt_major spec DropAnchors g = Inr (drop_anchors g)"
| "run_pass trt_major spec AnchorInput g = anchor_repair g"
| "run_pass trt_major spec CheckOutputs g = check_outputs g"

fun run_passes :: "char \<Rightarrow> model_spec \<Rightarrow> pass list \<Rightarrow> graph \<Rightarrow> pass list \<times> (error + graph)" where
  "run_passes trt_major spec [] g = ([], Inr g)"
| "run_passes trt_major spec (p # ps) g =
     (case run_pass trt_major spec p g of
        Inl e \<Rightarrow> ([p], Inl e)
      | Inr g' \<Rightarrow> (case run_passes trt_major spec ps g' of (t, r) \<Rightarrow> (p # t, r)))"

definition before_collapse :: "pass list" where
  \<comment> \<open>lines 153-239\<close>
  "before_collapse = [RemoveAsserts, ForwardIdentities, RemoveGather]"

definition after_collapse :: "pass list" where
  \<comment> \<open>lines 242-259\<close>
  "after_collapse =
     [ReplaceAddV2, ReplaceFusedBNV3, StripInputEdge, StripNMSEdge, ForwardSqueeze,
      DropAnchors, AnchorInput, CheckOutputs]"

definition add_plugin_passes :: "pass list" where
  "add_plugin_passes = before_collapse @ [CollapseNamespaces] @ after_collapse"

definition add_plugin_trace :: "char \<Rightarrow> graph \<Rightarrow> string \<Rightarrow> model_spec \<Rightarrow> pass list" where
  "add_plugin_trace trt_major g model spec = fst (run_passes trt_major spec add_plugin_passes g)"

definition add_plugin :: "char \<Rightarrow> graph \<Rightarrow> string \<Rightarrow> model_spec \<Rightarrow> error + graph" where
  "add_plugin trt_major g model spec = snd (run_passes trt_major spec add_plugin_passes g)"

datatype artifact = UffFile string graph | EngineFile string graph

definition main :: "string \<Rightarrow> char \<Rightarrow> (string \<Rightarrow> graph) \<Rightarrow> string \<Rightarrow> artifact list \<times> error option" where
  \<comment> \<open>lines 264-300. The frozen-graph loader is a parameter; the exporter and the engine
      builder are external and appear only as the files they write, in order; loading the
      plugin library and starting the logger (lines 270-273) write no file and are left
      out. A model outside \<^verbatim>\<open>MODEL_SPECS\<close> is refused by the argument parser. The result
      is the list of files written and the exception that ended the run, if any.\<close>
  "main dir_name trt_major load model =
     (case map_of (MODEL_SPECS dir_name) model of
        None \<Rightarrow> ([], Some UnknownModel)
      | Some spec \<Rightarrow>
          (case add_plugin trt_major (load (input_pb spec)) model spec of
             Inl e \<Rightarrow> ([], Some e)
           | Inr dynamic_graph \<Rightarrow>
               ([UffFile (tmp_uff spec) dynamic_graph, EngineFile (output_bin spec) dynamic_graph],
                None)))"

section \<open>Reading runs and nodes\<close>

definition attr_of :: "node \<Rightarrow> string \<Rightarrow> attr_value option" where
  "attr_of n k = map_of (attr n) k"

definition float_list_length :: "attr_value option \<Rightarrow> nat option" where
  "float_list_length v = (case v of Some (FloatListV rs) \<Rightarrow> Some (length rs) | _ \<Rightarrow> None)"

definition completes_before :: "pass \<Rightarrow> pass \<Rightarrow> pass list \<Rightarrow> bool" where
  \<comment> \<open>In the run \<open>t\<close>, pass \<open>q\<close> does not start unless \<open>p\<close> ran earlier.\<close>
  "completes_before p q t = (q \<in> set t \<longrightarrow> p \<in> set (takeWhile (\<lambda>x. x \<noteq> q) t))"

definition runs_last :: "pass \<Rightarrow> pass list \<Rightarrow> bool" where
  \<comment> \<open>In the run \<open>t\<close>, nothing starts after pass \<open>p\<close>.\<close>
  "runs_last p t = (p \<in> set t \<longrightarrow> last t = p)"

definition first_inputs :: "graph \<Rightarrow> string \<Rightarrow> string list" where
  \<comment> \<open>The input list of \<^verbatim>\<open>find_nodes_by_name(nm)[0]\<close>, where there is such a node.\<close>
  "first_inputs g nm = (case find_nodes_by_name g nm of [] \<Rightarrow> [] | n # _ \<Rightarrow> input n)"

definition order_of_source :: "pass list \<Rightarrow> bool" where
  "order_of_source t =
     (completes_before RemoveAsserts CollapseNamespaces t
      \<and> completes_before ForwardIdentities CollapseNamespaces t
      \<and> completes_before CollapseNamespaces ReplaceAddV2 t
      \<and> completes_before CollapseNamespaces ReplaceFusedBNV3 t
      \<and> runs_last CheckOutputs t)"

definition inputless :: "node list \<Rightarrow> bool" where
  "inputless ns = (\<forall>n\<in>set ns. input n = [])"

section \<open>Example graphs\<close>

definition mk :: "string \<Rightarrow> string \<Rightarrow> string list \<Rightarrow> node" where
  "mk nm k ins = \<lparr>name = nm, op = k, input = ins, attr = []\<rparr>"

definition v1_coco :: model_spec where
  "v1_coco = the (map_of (MODEL_SPECS ''ssd'') ''ssd_mobilenet_v1_coco'')"

definition ssd_nodes :: "node list" where
  \<comment> \<open>A small detector: preprocessing with an assertion, a feature extractor with a modern
      add and an identity, an anchor generator and the postprocessor.\<close>
  "ssd_nodes =
     [mk ''image_tensor'' ''Placeholder'' [],
      mk ''Preprocessor/sub'' ''Sub'' [''image_tensor:0''],
      mk ''Preprocessor/Assert'' ''Assert'' [''image_tensor:0''],
      mk ''FeatureExtractor/add'' ''AddV2'' [''Preprocessor/sub''],
      mk ''FeatureExtractor/id'' ''Identity'' [''FeatureExtractor/add''],
      mk ''MultipleGridAnchorGenerator/Meshgrid'' ''Const'' [],
      mk ''Postprocessor/Decode'' ''Decode''
        [''FeatureExtractor/id'', ''MultipleGridAnchorGenerator/Meshgrid'', ''Preprocessor/sub'']]"

definition ssd_graph :: graph where
  "ssd_graph = \<lparr>nodes = ssd_nodes, graph_outputs = [''Postprocessor/Decode'']\<rparr>"

definition ssd_final_nodes :: "node list" where
  "ssd_final_nodes =
     [Input,
      mk ''FeatureExtractor/add'' ''Add'' [''Input''],
      (PriorBox v1_coco)\<lparr>input := [''AnchorInput'']\<rparr>,
      (NMS v1_coco)\<lparr>input := [''FeatureExtractor/add'', ''MultipleGridAnchorGenerator'']\<rparr>]"

definition anchor_const :: node where
  "anchor_const = \<lparr>name = ''AnchorInput'', op = ''Const'', input = [],
                    attr = [(''value'', FloatListV [1, 1])]\<rparr>"

definition ssd_final :: graph where
  "ssd_final = \<lparr>nodes = ssd_final_nodes @ [anchor_const], graph_outputs = [''NMS'']\<rparr>"

definition two_output_graph :: graph where
  \<comment> \<open>The detector with a second designated output beside the postprocessor.\<close>
  "two_output_graph =
     \<lparr>nodes = ssd_nodes @ [mk ''debug'' ''Relu'' [''FeatureExtractor/id'']],
      graph_outputs = [''Postprocessor/Decode'', ''debug'']\<rparr>"

definition two_output_final :: graph where
  "two_output_final =
     \<lparr>nodes = ssd_final_nodes @ [mk ''debug'' ''Relu'' [''FeatureExtractor/add''], anchor_const],
      graph_outputs = [''NMS'', ''debug'']\<rparr>"

definition buried_nms_graph :: graph where
  \<comment> \<open>The detector with two further nodes downstream of the postprocessor; the last one is
      the only designated output.\<close>
  "buried_nms_graph =
     \<lparr>nodes = ssd_nodes @ [mk ''final/a'' ''Relu'' [''Postprocessor/Decode''],
                           mk ''final/b'' ''Relu'' [''final/a'']],
      graph_outputs = [''final/b'']\<rparr>"

definition buried_nms_checked :: graph where
  \<comment> \<open>\<open>buried_nms_graph\<close> as it reaches the final check of the outputs.\<close>
  "buried_nms_checked =
     \<lparr>nodes = ssd_final_nodes @ [mk ''final/a'' ''Relu'' [''NMS''],
                                 mk ''final/b'' ''Relu'' [''final/a''], anchor_const],
      graph_outputs = [''final/b'']\<rparr>"

definition ssd_collapsed :: graph where
  \<comment> \<open>\<open>ssd_graph\<close> right after namespace collapse.\<close>
  "ssd_collapsed =
     \<lparr>nodes = [Input\<lparr>input := [''image_tensor:0'']\<rparr>,
               mk ''FeatureExtractor/add'' ''AddV2'' [''Input''],
               PriorBox v1_coco,
               (NMS v1_coco)\<lparr>input := [''FeatureExtractor/add'', ''MultipleGridAnchorGenerator'',
                                         ''Input'']\<rparr>],
      graph_outputs = [''NMS'']\<rparr>"

definition anchors_graph :: graph where
  \<comment> \<open>The detector with a second designated output named \<^verbatim>\<open>anchors\<close>.\<close>
  "anchors_graph =
     \<lparr>nodes = ssd_nodes @ [mk ''anchors'' ''Reshape'' [''MultipleGridAnchorGenerator/Meshgrid'']],
      graph_outputs = [''Postprocessor/Decode'', ''anchors'']\<rparr>"

definition anchors_collapsed :: graph where
  \<comment> \<open>\<open>anchors_graph\<close> right after namespace collapse.\<close>
  "anchors_collapsed =
     \<lparr>nodes = nodes ssd_collapsed @ [mk ''anchors'' ''Reshape'' [''MultipleGridAnchorGenerator'']],
      graph_outputs = [''NMS'', ''anchors'']\<rparr>"

definition through_collapse :: "pass list" where
  "through_collapse = before_collapse @ [CollapseNamespaces]"

definition doubled_edge_graph :: graph where
  \<comment> \<open>A graph whose nodes already carry the names Input and NMS; NMS consumes Input twice.\<close>
  "doubled_edge_graph =
     \<lparr>nodes = [mk ''Input'' ''Placeholder'' [],
               mk ''NMS'' ''Mul'' [''Input'', ''Input'']],
      graph_outputs = [''NMS'']\<rparr>"

definition through_cleanup :: "pass list" where
  \<comment> \<open>lines 153-248: everything up to and including the two residual-edge statements\<close>
  "through_cleanup =
     through_collapse @ [ReplaceAddV2, ReplaceFusedBNV3, StripInputEdge, StripNMSEdge]"

definition no_input_graph :: graph where
  \<comment> \<open>Nothing lies under a preprocessing key, so collapse puts no node \<^verbatim>\<open>Input\<close> in.\<close>
  "no_input_graph =
     \<lparr>nodes = [mk ''x'' ''Const'' [], mk ''y'' ''Relu'' [''x'']], graph_outputs = [''y'']\<rparr>"

definition no_anchor_graph :: graph where
  \<comment> \<open>A detector without an anchor generator.\<close>
  "no_anchor_graph =
     \<lparr>nodes = [mk ''image_tensor'' ''Placeholder'' [],
               mk ''Preprocessor/sub'' ''Sub'' [''image_tensor:0''],
               mk ''Postprocessor/Decode'' ''Decode'' [''Preprocessor/sub'']],
      graph_outputs = [''Postprocessor/Decode'']\<rparr>"

definition plain_graph :: graph where
  "plain_graph = \<lparr>nodes = [], graph_outputs = []\<rparr>"

section \<open>Evaluation\<close>

lemma find_by_op_mem: "n \<in> set (find_nodes_by_op g k) \<longleftrightarrow> n \<in> set (nodes g) \<and> op n = k"
  by (auto simp: find_nodes_by_op_def)

lemma rename_nodes_eq:
  "map (\<lambda>n. if n \<in> set (find_nodes_by_op g k) then update_node n k' else n) (nodes g)
   = map (\<lambda>n. if op n = k then n\<lparr>op := k'\<rparr> else n) (nodes g)"
  by (rule map_cong) (auto simp: find_by_op_mem update_node_def)

lemma replace_addv2_eval:
  "replace_addv2 g = g\<lparr>nodes := map (\<lambda>n. if op n = ''AddV2'' then n\<lparr>op := ''Add''\<rparr> else n) (nodes g)\<rparr>"
  by (simp add: replace_addv2_def rename_nodes_eq)

lemma replace_fusedbnv3_eval:
  "replace_fusedbnv3 g =
   g\<lparr>nodes := map (\<lambda>n. if op n = ''FusedBatchNormV3'' then n\<lparr>op := ''FusedBatchNorm''\<rparr> else n)
                (nodes g)\<rparr>"
  by (simp add: replace_fusedbnv3_def rename_nodes_eq)

lemma plugin_sel:
  "name (NMS s) = ''NMS''" "op (NMS s) = ''NMS_TRT''" "input (NMS s) = []"
  "name (PriorBox s) = ''MultipleGridAnchorGenerator''" "op (PriorBox s) = ''GridAnchor_TRT''"
  "input (PriorBox s) = []"
  "name Input = ''Input''" "op Input = ''Placeholder''" "input Input = []"
  "name concat_priorbox = ''concat_priorbox''" "op concat_priorbox = ''ConcatV2''"
  "input concat_priorbox = []"
  "name (concat_box_loc c) = ''concat_box_loc''" "op (concat_box_loc c) = ''FlattenConcat_TRT''"
  "input (concat_box_loc c) = []"
  "name (concat_box_conf c) = ''concat_box_conf''" "op (concat_box_conf c) = ''FlattenConcat_TRT''"
  "input (concat_box_conf c) = []"
  by (simp_all add: NMS_def PriorBox_def Input_def concat_priorbox_def concat_box_loc_def
      concat_box_conf_def flatten_concat_def create_plugin_node_def create_node_def)

lemma plugin_input_reset:
  "Input\<lparr>input := []\<rparr> = Input" "(PriorBox s)\<lparr>input := []\<rparr> = PriorBox s"
  "(NMS s)\<lparr>input := []\<rparr> = NMS s"
  by (simp_all add: NMS_def PriorBox_def Input_def create_plugin_node_def)

lemmas eval_defs =
  add_plugin_passes_def before_collapse_def after_collapse_def
  remove_asserts_def forward_identities_def remove_gather_def strip_edge_def forward_squeeze_def
  drop_anchors_def anchor_repair_def check_outputs_def add_anchor_input_def
  replace_addv2_eval replace_fusedbnv3_eval
  find_nodes_by_op_def find_nodes_by_name_def find_nodes_by_path_def find_node_inputs_by_name_def
  under_key_def ref_name_def append_node_def remove_outright_def dead_nodes_def remove_nodes_def
  forward_one_def first_seen_def plugin_of_def rewrite_ref_def inside_def boundary_inputs_def
  collapse_namespaces_def namespace_plugin_map_def create_node_def mk_def sweep.simps
  plugin_sel plugin_input_reset anchor_const_def

lemma ssd_run:
  "run_passes CHR ''8'' v1_coco add_plugin_passes ssd_graph = (add_plugin_passes, Inr ssd_final)"
  by (simp add: eval_defs ssd_graph_def ssd_nodes_def ssd_final_def ssd_final_nodes_def)

lemma two_output_run:
  "run_passes CHR ''8'' v1_coco add_plugin_passes two_output_graph
   = (add_plugin_passes, Inr two_output_final)"
  by (simp add: eval_defs two_output_graph_def ssd_nodes_def two_output_final_def
      ssd_final_nodes_def)

lemma buried_nms_run:
  "run_passes CHR ''8'' v1_coco (butlast add_plugin_passes) buried_nms_graph
   = (butlast add_plugin_passes, Inr buried_nms_checked)"
  by (simp add: eval_defs buried_nms_graph_def ssd_nodes_def buried_nms_checked_def
      ssd_final_nodes_def)

lemma no_input_run:
  "run_passes CHR ''8'' v1_coco add_plugin_passes no_input_graph
   = (before_collapse @ [CollapseNamespaces, ReplaceAddV2, ReplaceFusedBNV3, StripInputEdge],
      Inl IndexError)"
  by (simp add: eval_defs no_input_graph_def)

lemma no_anchor_run:
  "run_passes CHR ''8'' v1_coco add_plugin_passes no_anchor_graph
   = (butlast add_plugin_passes, Inl IndexError)"
  by (simp add: eval_defs no_anchor_graph_def)

lemma ssd_collapse_run:
  "snd (run_passes CHR ''8'' v1_coco through_collapse ssd_graph) = Inr ssd_collapsed"
  by (simp add: eval_defs through_collapse_def ssd_graph_def ssd_nodes_def ssd_collapsed_def)

lemma ssd_after_collapse_run:
  "snd (run_passes CHR ''8'' v1_coco after_collapse ssd_collapsed) = Inr ssd_final"
  by (simp add: eval_defs ssd_collapsed_def ssd_final_def ssd_final_nodes_def)

lemma anchors_collapse_run:
  "snd (run_passes CHR ''8'' v1_coco through_collapse anchors_graph) = Inr anchors_collapsed"
  by (simp add: eval_defs through_collapse_def anchors_graph_def ssd_nodes_def
      anchors_collapsed_def ssd_collapsed_def)

lemma anchors_after_collapse_run:
  "snd (run_passes CHR ''8'' v1_coco after_collapse anchors_collapsed) = Inr ssd_final"
  by (simp add: eval_defs anchors_collapsed_def ssd_collapsed_def ssd_final_def
      ssd_final_nodes_def)

lemma doubled_edge_run:
  "snd (run_passes CHR ''8'' v1_coco through_cleanup doubled_edge_graph)
   = Inr \<lparr>nodes = [mk ''Input'' ''Placeholder'' [], mk ''NMS'' ''Mul'' [''Input'']],
          graph_outputs = [''NMS'']\<rparr>"
  by (simp add: eval_defs through_cleanup_def through_collapse_def doubled_edge_graph_def)

section \<open>Plugin attributes\<close>

text \<open>
  C4 (amended). The PriorBox replacement node carries the model spec's min and max scale,
  the fixed list of five aspect ratios 1.0, 2.0, 0.5, 3.0, 0.33, the fixed variance
  4-tuple 0.1, 0.1, 0.2, 0.2, the fixed six-level feature-map-size list 19, 10, 5, 3, 2, 1
  and a layer count of 6, whatever the model spec is.
\<close>

theorem priorbox_attrs:
  "attr_of (PriorBox spec) ''minSize'' = Some (FloatV (min_size spec))
   \<and> attr_of (PriorBox spec) ''maxSize'' = Some (FloatV (max_size spec))
   \<and> attr_of (PriorBox spec) ''aspectRatios'' = Some (FloatListV [1.0, 2.0, 0.5, 3.0, 0.33])
   \<and> float_list_length (attr_of (PriorBox spec) ''aspectRatios'') = Some 5
   \<and> attr_of (PriorBox spec) ''variance'' = Some (FloatListV [0.1, 0.1, 0.2, 0.2])
   \<and> attr_of (PriorBox spec) ''featureMapShapes'' = Some (IntListV [19, 10, 5, 3, 2, 1])
   \<and> attr_of (PriorBox spec) ''numLayers'' = Some (IntV 6)"
  by (simp add: attr_of_def PriorBox_def create_plugin_node_def float_list_length_def)

text \<open>
  C4 as stated speaks of six aspect ratios; the node built for ssd_mobilenet_v1_coco
  carries five.
\<close>

theorem priorbox_aspect_ratios_not_six:
  "float_list_length (attr_of (PriorBox v1_coco) ''aspectRatios'') \<noteq> Some 6"
  by (simp add: attr_of_def PriorBox_def create_plugin_node_def float_list_length_def)

text \<open>
  C5. The registry entry ssd_mobilenet_v1_coco has class count 91, min and max scale 0.2
  and 0.95 and input order 0, 2, 1; the NMS node built from it has the class-count
  attribute 91, the confidence threshold 0.3 and the input-order attribute 0, 2, 1.
\<close>

theorem nms_attrs_v1_coco:
  "map_option (\<lambda>spec. (num_classes spec, min_size spec, max_size spec, input_order spec,
                       attr_of (NMS spec) ''numClasses'',
                       attr_of (NMS spec) ''confidenceThreshold'',
                       attr_of (NMS spec) ''inputOrder''))
     (map_of (MODEL_SPECS dir_name) ''ssd_mobilenet_v1_coco'')
   = Some (91, 0.2, 0.95, [0, 2, 1], Some (IntV 91), Some (FloatV 0.3), Some (IntListV [0, 2, 1]))"
  by (simp add: MODEL_SPECS_def spec_entry_def attr_of_def NMS_def create_plugin_node_def)

section \<open>Op rewriting\<close>

lemma graph_eqI: "nodes g = nodes h \<Longrightarrow> graph_outputs g = graph_outputs h \<Longrightarrow> (g::graph) = h"
  by simp

lemma rename_idem:
  "k' \<noteq> k \<Longrightarrow>
   map (\<lambda>n. if op n = k then n\<lparr>op := k'\<rparr> else n)
     (map (\<lambda>n. if op n = k then n\<lparr>op := k'\<rparr> else n) ns)
   = map (\<lambda>n. if op n = k then n\<lparr>op := k'\<rparr> else n) ns"
  by (induction ns) auto

lemma rename_noop:
  "filter (\<lambda>n. op n = k) ns = [] \<Longrightarrow> map (\<lambda>n. if op n = k then n\<lparr>op := k'\<rparr> else n) ns = ns"
  by (induction ns) (auto split: if_splits)

text \<open>
  C8. Applying \<^verbatim>\<open>replace_addv2\<close> (and likewise \<^verbatim>\<open>replace_fusedbnv3\<close>) twice yields the
  same graph as applying it once; it leaves a graph without matching nodes as it is; after
  it no node is tagged AddV2 and every node's attributes are untouched.
\<close>

theorem op_rewriter_idempotent:
  "replace_addv2 (replace_addv2 g) = replace_addv2 g
   \<and> replace_fusedbnv3 (replace_fusedbnv3 g) = replace_fusedbnv3 g
   \<and> (find_nodes_by_op g ''AddV2'' = [] \<longrightarrow> replace_addv2 g = g)
   \<and> (find_nodes_by_op g ''FusedBatchNormV3'' = [] \<longrightarrow> replace_fusedbnv3 g = g)
   \<and> find_nodes_by_op (replace_addv2 g) ''AddV2'' = []
   \<and> map attr (nodes (replace_addv2 g)) = map attr (nodes g)"
proof -
  have a: "replace_addv2 (replace_addv2 g) = replace_addv2 g"
    by (rule graph_eqI) (simp_all add: replace_addv2_eval rename_idem)
  have b: "replace_fusedbnv3 (replace_fusedbnv3 g) = replace_fusedbnv3 g"
    by (rule graph_eqI) (simp_all add: replace_fusedbnv3_eval rename_idem)
  have c: "find_nodes_by_op g ''AddV2'' = [] \<longrightarrow> replace_addv2 g = g"
  proof
    assume "find_nodes_by_op g ''AddV2'' = []"
    then have "nodes (replace_addv2 g) = nodes g"
      by (simp add: replace_addv2_eval rename_noop find_nodes_by_op_def)
    then show "replace_addv2 g = g"
      by (intro graph_eqI) (simp_all add: replace_addv2_eval)
  qed
  have d: "find_nodes_by_op g ''FusedBatchNormV3'' = [] \<longrightarrow> replace_fusedbnv3 g = g"
  proof
    assume "find_nodes_by_op g ''FusedBatchNormV3'' = []"
    then have "nodes (replace_fusedbnv3 g) = nodes g"
      by (simp add: replace_fusedbnv3_eval rename_noop find_nodes_by_op_def)
    then show "replace_fusedbnv3 g = g"
      by (intro graph_eqI) (simp_all add: replace_fusedbnv3_eval)
  qed
  have e: "find_nodes_by_op (replace_addv2 g) ''AddV2'' = []"
    by (auto simp: find_nodes_by_op_def replace_addv2_eval filter_empty_conv)
  have f: "map attr (nodes (replace_addv2 g)) = map attr (nodes g)"
    by (simp add: replace_addv2_eval comp_def if_distrib cong: if_cong)
  from a b c d e f show ?thesis by blast
qed

theorem op_rewriter_idempotent_witness:
  "find_nodes_by_op no_input_graph ''AddV2'' = []
   \<and> find_nodes_by_op no_input_graph ''FusedBatchNormV3'' = []
   \<and> replace_addv2 no_input_graph = no_input_graph
   \<and> replace_fusedbnv3 no_input_graph = no_input_graph
   \<and> replace_addv2 (replace_addv2 ssd_graph) = replace_addv2 ssd_graph"
proof -
  have h1: "find_nodes_by_op no_input_graph ''AddV2'' = []"
    by (simp add: find_nodes_by_op_def no_input_graph_def mk_def)
  have h2: "find_nodes_by_op no_input_graph ''FusedBatchNormV3'' = []"
    by (simp add: find_nodes_by_op_def no_input_graph_def mk_def)
  from h1 h2 op_rewriter_idempotent [of no_input_graph] op_rewriter_idempotent [of ssd_graph]
  show ?thesis by blast
qed

section \<open>Order of passes\<close>

lemma run_passes_prefix: "prefix (fst (run_passes c s ps g)) ps"
proof (induction ps arbitrary: g)
  case Nil
  show ?case by simp
next
  case (Cons p ps)
  show ?case
  proof (cases "run_pass c s p g")
    case (Inl e)
    then show ?thesis by simp
  next
    case (Inr g')
    with Cons [of g'] show ?thesis by (simp add: split_beta)
  qed
qed

lemma run_passes_success: "run_passes c s ps g = (t, Inr g') \<Longrightarrow> t = ps"
proof (induction ps arbitrary: g t)
  case Nil
  then show ?case by simp
next
  case (Cons p ps)
  then show ?case by (auto split: sum.splits prod.splits)
qed

lemma run_passes_append:
  "snd (run_passes c s (ps @ qs) g) =
   (case snd (run_passes c s ps g) of Inl e \<Rightarrow> Inl e | Inr g1 \<Rightarrow> snd (run_passes c s qs g1))"
  by (induction ps arbitrary: g) (simp_all add: split_beta split: sum.splits)

lemma run_passes_snoc:
  "snd (run_passes c s (ps @ [p]) g) =
   (case snd (run_passes c s ps g) of Inl e \<Rightarrow> Inl e | Inr g1 \<Rightarrow> run_pass c s p g1)"
  by (simp add: run_passes_append split: sum.splits)

lemma order_of_every_prefix: "list_all order_of_source (prefixes add_plugin_passes)"
  by (simp add: add_plugin_passes_def before_collapse_def after_collapse_def order_of_source_def
      completes_before_def runs_last_def)

text \<open>
  C1 (amended). In every run of \<^verbatim>\<open>add_plugin\<close>, the removal of Assert nodes and the
  forwarding of Identity nodes each complete before namespace collapse begins; the two
  op-rewriting passes (AddV2 to Add, FusedBatchNormV3 to FusedBatchNorm) start only after
  namespace collapse has completed; nothing runs after the final check of the outputs;
  and a run that returns a graph has executed every pass, in the order of the source.
\<close>

theorem pass_order:
  "completes_before RemoveAsserts CollapseNamespaces (add_plugin_trace trt_major g model spec)
   \<and> completes_before ForwardIdentities CollapseNamespaces (add_plugin_trace trt_major g model spec)
   \<and> completes_before CollapseNamespaces ReplaceAddV2 (add_plugin_trace trt_major g model spec)
   \<and> completes_before CollapseNamespaces ReplaceFusedBNV3 (add_plugin_trace trt_major g model spec)
   \<and> runs_last CheckOutputs (add_plugin_trace trt_major g model spec)
   \<and> ((\<exists>g'. add_plugin trt_major g model spec = Inr g')
        \<longrightarrow> add_plugin_trace trt_major g model spec = add_plugin_passes)"
proof -
  let ?t = "add_plugin_trace trt_major g model spec"
  have "prefix ?t add_plugin_passes"
    unfolding add_plugin_trace_def by (rule run_passes_prefix)
  then have "?t \<in> set (prefixes add_plugin_passes)"
    by (simp add: in_set_prefixes)
  with order_of_every_prefix have "order_of_source ?t"
    by (simp add: list_all_iff)
  moreover have "(\<exists>g'. add_plugin trt_major g model spec = Inr g') \<longrightarrow> ?t = add_plugin_passes"
  proof
    assume "\<exists>g'. add_plugin trt_major g model spec = Inr g'"
    then obtain g' where "snd (run_passes trt_major spec add_plugin_passes g) = Inr g'"
      by (auto simp: add_plugin_def)
    then have "run_passes trt_major spec add_plugin_passes g = (?t, Inr g')"
      by (simp add: add_plugin_trace_def prod_eq_iff)
    then show "?t = add_plugin_passes" by (rule run_passes_success)
  qed
  ultimately show ?thesis by (simp add: order_of_source_def)
qed

theorem pass_order_witness:
  "add_plugin CHR ''8'' ssd_graph ''ssd_mobilenet_v1_coco'' v1_coco = Inr ssd_final
   \<and> CollapseNamespaces \<in> set (add_plugin_trace CHR ''8'' ssd_graph ''ssd_mobilenet_v1_coco'' v1_coco)
   \<and> add_plugin_trace CHR ''8'' ssd_graph ''ssd_mobilenet_v1_coco'' v1_coco = add_plugin_passes
   \<and> completes_before RemoveAsserts CollapseNamespaces
       (add_plugin_trace CHR ''8'' ssd_graph ''ssd_mobilenet_v1_coco'' v1_coco)
   \<and> completes_before CollapseNamespaces ReplaceAddV2
       (add_plugin_trace CHR ''8'' ssd_graph ''ssd_mobilenet_v1_coco'' v1_coco)
   \<and> runs_last CheckOutputs (add_plugin_trace CHR ''8'' ssd_graph ''ssd_mobilenet_v1_coco'' v1_coco)"
proof -
  let ?t = "add_plugin_trace CHR ''8'' ssd_graph ''ssd_mobilenet_v1_coco'' v1_coco"
  note po = pass_order [of "CHR ''8''" ssd_graph "''ssd_mobilenet_v1_coco''" v1_coco]
  have h: "add_plugin CHR ''8'' ssd_graph ''ssd_mobilenet_v1_coco'' v1_coco = Inr ssd_final"
    by (simp add: add_plugin_def ssd_run)
  then have ex: "\<exists>g'. add_plugin CHR ''8'' ssd_graph ''ssd_mobilenet_v1_coco'' v1_coco = Inr g'"
    by blast
  from po ex have t: "?t = add_plugin_passes" by blast
  have "CollapseNamespaces \<in> set add_plugin_passes"
    by (simp add: add_plugin_passes_def)
  with t have c: "CollapseNamespaces \<in> set ?t" by simp
  from po have a: "completes_before RemoveAsserts CollapseNamespaces ?t" by blast
  from po have b: "completes_before CollapseNamespaces ReplaceAddV2 ?t" by blast
  from po have d: "runs_last CheckOutputs ?t" by blast
  from h c t a b d show ?thesis by blast
qed

text \<open>
  C1 as stated has op rewriting complete before namespace collapse begins. In the run on
  the example detector collapse starts although the AddV2 rewriting has not run yet.
\<close>

theorem op_rewriting_not_before_collapse:
  "\<not> completes_before ReplaceAddV2 CollapseNamespaces
       (add_plugin_trace CHR ''8'' ssd_graph ''ssd_mobilenet_v1_coco'' v1_coco)"
proof -
  have "add_plugin_trace CHR ''8'' ssd_graph ''ssd_mobilenet_v1_coco'' v1_coco = add_plugin_passes"
    by (simp add: add_plugin_trace_def ssd_run)
  then show ?thesis
    by (simp add: completes_before_def add_plugin_passes_def before_collapse_def
        after_collapse_def)
qed

section \<open>The final check of the outputs\<close>

lemma check_outputs_nms: "check_outputs g = Inr g' \<Longrightarrow> ''NMS'' \<in> set (graph_outputs g')"
  by (auto simp: check_outputs_def Let_def split: if_splits)

lemma add_plugin_passes_snoc: "add_plugin_passes = butlast add_plugin_passes @ [CheckOutputs]"
  by (simp add: add_plugin_passes_def before_collapse_def after_collapse_def)

lemma add_plugin_check_last:
  "add_plugin trt_major g model spec =
   (case snd (run_passes trt_major spec (butlast add_plugin_passes) g) of
      Inl e \<Rightarrow> Inl e
    | Inr g1 \<Rightarrow> check_outputs g1)"
proof -
  have "add_plugin trt_major g model spec
        = snd (run_passes trt_major spec (butlast add_plugin_passes @ [CheckOutputs]) g)"
    unfolding add_plugin_def using add_plugin_passes_snoc by simp
  then show ?thesis by (simp add: run_passes_snoc split: sum.splits)
qed

text \<open>
  C2 (amended). Whenever \<^verbatim>\<open>add_plugin\<close> returns a graph, the node NMS is among the graph's
  designated outputs, so the output set is never empty; it may hold further nodes.
\<close>

theorem nms_among_outputs:
  "add_plugin trt_major g model spec = Inr g' \<Longrightarrow> ''NMS'' \<in> set (graph_outputs g')"
  by (auto simp: add_plugin_check_last split: sum.splits dest: check_outputs_nms)

theorem nms_among_outputs_witness:
  "add_plugin CHR ''8'' ssd_graph ''ssd_mobilenet_v1_coco'' v1_coco = Inr ssd_final
   \<and> ''NMS'' \<in> set (graph_outputs ssd_final)"
proof -
  have h: "add_plugin CHR ''8'' ssd_graph ''ssd_mobilenet_v1_coco'' v1_coco = Inr ssd_final"
    by (simp add: add_plugin_def ssd_run)
  from h nms_among_outputs [OF h] show ?thesis by blast
qed

text \<open>
  C2 as stated has exactly one node in the output set of a successful run. The detector
  with a second designated output is returned with both NMS and that output designated.
\<close>

theorem two_outputs_returned:
  "map_sum id graph_outputs (add_plugin CHR ''8'' two_output_graph ''ssd_mobilenet_v1_coco'' v1_coco)
   = Inr [''NMS'', ''debug'']"
  by (simp add: add_plugin_def two_output_run two_output_final_def)

text \<open>
  C6. When the graph reaches the final check with NMS absent from its outputs and NMS is
  still absent after the current outputs have been removed, \<^verbatim>\<open>add_plugin\<close> raises
  \<^verbatim>\<open>RuntimeError('bad graph_outputs')\<close> and returns no graph, and \<^verbatim>\<open>main\<close> ends with that
  error having written neither the interchange file nor the engine file.
\<close>

theorem missing_nms_is_fatal:
  assumes "snd (run_passes trt_major spec (butlast add_plugin_passes) g) = Inr g1"
    and "''NMS'' \<notin> set (graph_outputs g1)"
    and "''NMS'' \<notin> set (graph_outputs (remove_nodes g1 (graph_outputs g1) False))"
  shows "add_plugin trt_major g model spec = Inl (RuntimeError ''bad graph_outputs'')
         \<and> (\<forall>dir_name load.
               map_of (MODEL_SPECS dir_name) model = Some spec \<and> load (input_pb spec) = g
               \<longrightarrow> main dir_name trt_major load model
                    = ([], Some (RuntimeError ''bad graph_outputs'')))"
proof -
  have a: "add_plugin trt_major g model spec = Inl (RuntimeError ''bad graph_outputs'')"
    using assms by (simp add: add_plugin_check_last check_outputs_def Let_def)
  then show ?thesis by (simp add: main_def)
qed

theorem missing_nms_is_fatal_witness:
  "snd (run_passes CHR ''8'' v1_coco (butlast add_plugin_passes) buried_nms_graph)
     = Inr buried_nms_checked
   \<and> ''NMS'' \<notin> set (graph_outputs buried_nms_checked)
   \<and> ''NMS'' \<notin> set (graph_outputs
        (remove_nodes buried_nms_checked (graph_outputs buried_nms_checked) False))
   \<and> map_of (MODEL_SPECS ''ssd'') ''ssd_mobilenet_v1_coco'' = Some v1_coco
   \<and> add_plugin CHR ''8'' buried_nms_graph ''ssd_mobilenet_v1_coco'' v1_coco
       = Inl (RuntimeError ''bad graph_outputs'')
   \<and> main ''ssd'' CHR ''8'' (\<lambda>path. buried_nms_graph) ''ssd_mobilenet_v1_coco''
       = ([], Some (RuntimeError ''bad graph_outputs''))"
proof -
  have h1: "snd (run_passes CHR ''8'' v1_coco (butlast add_plugin_passes) buried_nms_graph)
            = Inr buried_nms_checked"
    by (simp add: buried_nms_run)
  have h2: "''NMS'' \<notin> set (graph_outputs buried_nms_checked)"
    by (simp add: buried_nms_checked_def)
  have h3: "''NMS'' \<notin> set (graph_outputs
              (remove_nodes buried_nms_checked (graph_outputs buried_nms_checked) False))"
    by (simp add: buried_nms_checked_def remove_nodes_def remove_outright_def)
  have h4: "map_of (MODEL_SPECS ''ssd'') ''ssd_mobilenet_v1_coco'' = Some v1_coco"
    by (simp add: v1_coco_def MODEL_SPECS_def spec_entry_def)
  note m = missing_nms_is_fatal [OF h1 h2 h3, of "''ssd_mobilenet_v1_coco''"]
  from m have a: "add_plugin CHR ''8'' buried_nms_graph ''ssd_mobilenet_v1_coco'' v1_coco
                  = Inl (RuntimeError ''bad graph_outputs'')" by blast
  from m have "map_of (MODEL_SPECS ''ssd'') ''ssd_mobilenet_v1_coco'' = Some v1_coco
                 \<and> (\<lambda>path. buried_nms_graph) (input_pb v1_coco) = buried_nms_graph
               \<longrightarrow> main ''ssd'' CHR ''8'' (\<lambda>path. buried_nms_graph) ''ssd_mobilenet_v1_coco''
                   = ([], Some (RuntimeError ''bad graph_outputs''))"
    by (elim conjE allE)
  with h4 have b: "main ''ssd'' CHR ''8'' (\<lambda>path. buried_nms_graph) ''ssd_mobilenet_v1_coco''
                   = ([], Some (RuntimeError ''bad graph_outputs''))" by simp
  from h1 h2 h3 h4 a b show ?thesis by blast
qed

section \<open>Unguarded indexing\<close>

text \<open>
  C10. There are input graphs on which \<^verbatim>\<open>add_plugin\<close> ends in an IndexError of a
  \<^verbatim>\<open>[0]\<close> access, not in a returned graph and not in the RuntimeError of the final check:
  a graph in which collapse leaves no node named Input fails at line 245, a detector
  without an anchor generator fails at line 253, and line 250 fails on a graph whose list
  of outputs is empty.
\<close>

theorem unguarded_index_errors:
  "add_plugin CHR ''8'' no_input_graph ''ssd_mobilenet_v1_coco'' v1_coco = Inl IndexError
   \<and> last (add_plugin_trace CHR ''8'' no_input_graph ''ssd_mobilenet_v1_coco'' v1_coco)
       = StripInputEdge
   \<and> add_plugin CHR ''8'' no_anchor_graph ''ssd_mobilenet_v1_coco'' v1_coco = Inl IndexError
   \<and> last (add_plugin_trace CHR ''8'' no_anchor_graph ''ssd_mobilenet_v1_coco'' v1_coco)
       = AnchorInput
   \<and> run_pass CHR ''8'' v1_coco ForwardSqueeze plain_graph = Inl IndexError"
proof -
  have a: "add_plugin CHR ''8'' no_input_graph ''ssd_mobilenet_v1_coco'' v1_coco = Inl IndexError"
    by (simp add: add_plugin_def no_input_run)
  have b: "last (add_plugin_trace CHR ''8'' no_input_graph ''ssd_mobilenet_v1_coco'' v1_coco)
           = StripInputEdge"
    by (simp add: add_plugin_trace_def no_input_run)
  have c: "add_plugin CHR ''8'' no_anchor_graph ''ssd_mobilenet_v1_coco'' v1_coco = Inl IndexError"
    by (simp add: add_plugin_def no_anchor_run)
  have "add_plugin_trace CHR ''8'' no_anchor_graph ''ssd_mobilenet_v1_coco'' v1_coco
        = butlast add_plugin_passes"
    by (simp add: add_plugin_trace_def no_anchor_run)
  then have d: "last (add_plugin_trace CHR ''8'' no_anchor_graph ''ssd_mobilenet_v1_coco'' v1_coco)
                = AnchorInput"
    by (simp add: add_plugin_passes_def before_collapse_def after_collapse_def)
  have e: "run_pass CHR ''8'' v1_coco ForwardSqueeze plain_graph = Inl IndexError"
    by (simp add: forward_squeeze_def plain_graph_def)
  from a b c d e show ?thesis by blast
qed

section \<open>The passes after collapse\<close>

lemma after_collapse_steps:
  assumes "snd (run_passes c s after_collapse g) = Inr g'"
  obtains g3 g4 g5 g7 where
    "strip_edge (replace_fusedbnv3 (replace_addv2 g)) ''Input'' ''image_tensor:0'' = Inr g3"
    "strip_edge g3 ''NMS'' ''Input'' = Inr g4"
    "forward_squeeze g4 = Inr g5"
    "anchor_repair (drop_anchors g5) = Inr g7"
    "check_outputs g7 = Inr g'"
  using assms by (auto simp: after_collapse_def split_beta split: sum.splits)

lemma remove_outright_outputs:
  "graph_outputs (remove_outright g names) = filter (\<lambda>x. x \<notin> set names) (graph_outputs g)"
  by (simp add: remove_outright_def)

lemma check_outputs_same: "check_outputs g = Inr g' \<Longrightarrow> g' = g"
  by (auto simp: check_outputs_def Let_def remove_nodes_def remove_outright_outputs
      split: if_splits)

lemma strip_edge_outputs: "strip_edge g nm r = Inr g' \<Longrightarrow> graph_outputs g' = graph_outputs g"
  by (auto simp: strip_edge_def split: list.splits if_splits)

lemma forward_one_outputs:
  "forward_one g nm = Inr g' \<Longrightarrow> nm \<notin> set (graph_outputs g) \<Longrightarrow> graph_outputs g' = graph_outputs g"
  by (auto simp: forward_one_def remove_outright_outputs filter_id_conv split: list.splits)

lemma forward_inputs_outputs:
  "forward_inputs g nms = Inr g' \<Longrightarrow> \<forall>nm\<in>set nms. nm \<notin> set (graph_outputs g)
   \<Longrightarrow> graph_outputs g' = graph_outputs g"
proof (induction nms arbitrary: g)
  case Nil
  then show ?case by simp
next
  case (Cons nm nms)
  from Cons.prems(1) obtain g1 where g1: "forward_one g nm = Inr g1" "forward_inputs g1 nms = Inr g'"
    by (auto split: sum.splits)
  from g1(1) Cons.prems(2) have "graph_outputs g1 = graph_outputs g"
    by (simp add: forward_one_outputs)
  with Cons.IH [OF g1(2)] Cons.prems(2) show ?case by simp
qed

lemma find_node_inputs_names:
  "m \<in> set (find_node_inputs_by_name g out nm) \<Longrightarrow> name m = nm"
  by (auto simp: find_node_inputs_by_name_def split: list.splits)

lemma forward_squeeze_outputs:
  assumes "forward_squeeze g = Inr g'" and "''Squeeze'' \<notin> set (graph_outputs g)"
  shows "graph_outputs g' = graph_outputs g"
proof -
  from assms(1) obtain out where
    fi: "forward_inputs g (map name (find_node_inputs_by_name g out ''Squeeze'')) = Inr g'"
    by (auto simp: forward_squeeze_def split: list.splits)
  have "\<forall>nm\<in>set (map name (find_node_inputs_by_name g out ''Squeeze'')). nm \<notin> set (graph_outputs g)"
    using assms(2) by (auto dest: find_node_inputs_names)
  with fi show ?thesis by (rule forward_inputs_outputs)
qed

lemma anchor_repair_outputs: "anchor_repair g = Inr g' \<Longrightarrow> graph_outputs g' = graph_outputs g"
  by (auto simp: anchor_repair_def add_anchor_input_def append_node_def Let_def
      split: list.splits if_splits)

lemma drop_anchors_outputs:
  "graph_outputs (drop_anchors g) = filter (\<lambda>x. x \<noteq> ''anchors'') (graph_outputs g)"
proof (cases "''anchors'' \<in> set (graph_outputs g)")
  case True
  then show ?thesis
    by (simp add: drop_anchors_def remove_nodes_def remove_outright_outputs)
next
  case False
  then have "filter (\<lambda>x. x \<noteq> ''anchors'') (graph_outputs g) = graph_outputs g"
    by (intro filter_True) auto
  with False show ?thesis by (simp add: drop_anchors_def)
qed

text \<open>
  C7. For every graph whose output set is NMS and anchors after namespace collapse, a run
  of the remaining passes that returns a graph returns it with exactly NMS as its output
  set: anchors has been dropped.
\<close>

theorem anchors_output_dropped:
  assumes "set (graph_outputs g) = {''NMS'', ''anchors''}"
    and "snd (run_passes trt_major spec after_collapse g) = Inr g'"
  shows "set (graph_outputs g') = {''NMS''}"
proof -
  from assms(2) obtain g3 g4 g5 g7 where
    s3: "strip_edge (replace_fusedbnv3 (replace_addv2 g)) ''Input'' ''image_tensor:0'' = Inr g3" and
    s4: "strip_edge g3 ''NMS'' ''Input'' = Inr g4" and
    s5: "forward_squeeze g4 = Inr g5" and
    s7: "anchor_repair (drop_anchors g5) = Inr g7" and
    s8: "check_outputs g7 = Inr g'"
    by (rule after_collapse_steps)
  have "graph_outputs g3 = graph_outputs g"
    using strip_edge_outputs [OF s3] by (simp add: replace_fusedbnv3_eval replace_addv2_eval)
  with strip_edge_outputs [OF s4] have o4: "graph_outputs g4 = graph_outputs g" by simp
  with assms(1) have "''Squeeze'' \<notin> set (graph_outputs g4)" by simp
  with forward_squeeze_outputs [OF s5] o4 have "graph_outputs g5 = graph_outputs g" by simp
  with anchor_repair_outputs [OF s7]
  have "graph_outputs g7 = filter (\<lambda>x. x \<noteq> ''anchors'') (graph_outputs g)"
    by (simp add: drop_anchors_outputs)
  with check_outputs_same [OF s8]
  have "set (graph_outputs g') = set (graph_outputs g) - {''anchors''}" by auto
  with assms(1) show ?thesis by auto
qed

theorem anchors_output_dropped_witness:
  "snd (run_passes CHR ''8'' v1_coco through_collapse anchors_graph) = Inr anchors_collapsed
   \<and> set (graph_outputs anchors_collapsed) = {''NMS'', ''anchors''}
   \<and> snd (run_passes CHR ''8'' v1_coco after_collapse anchors_collapsed) = Inr ssd_final
   \<and> set (graph_outputs ssd_final) = {''NMS''}"
proof -
  have h1: "set (graph_outputs anchors_collapsed) = {''NMS'', ''anchors''}"
    by (simp add: anchors_collapsed_def)
  note h2 = anchors_after_collapse_run
  from anchors_collapse_run h1 h2 anchors_output_dropped [OF h1 h2] show ?thesis by blast
qed

section \<open>Residual edges\<close>

lemma update_first_same_name:
  "\<forall>x. name (f x) = name x \<Longrightarrow>
   filter (\<lambda>n. name n = nm) (update_first (\<lambda>m. name m = nm) f ns)
   = (case filter (\<lambda>n. name n = nm) ns of [] \<Rightarrow> [] | n # rest \<Rightarrow> f n # rest)"
  by (induction ns) auto

lemma update_first_other_name:
  "\<forall>x. name (f x) = name x \<Longrightarrow> nm' \<noteq> nm \<Longrightarrow>
   filter (\<lambda>n. name n = nm') (update_first (\<lambda>m. name m = nm) f ns)
   = filter (\<lambda>n. name n = nm') ns"
  by (induction ns) auto

lemma count_list_remove1:
  "x \<in> set xs \<Longrightarrow> count_list (remove1 x xs) x = count_list xs x - 1"
  by (induction xs) auto

lemma count_list_absent: "x \<notin> set xs \<Longrightarrow> count_list xs x = 0"
  by (induction xs) auto

lemma strip_edge_cases:
  assumes "strip_edge g nm r = Inr g'"
  shows "\<exists>n rest. filter (\<lambda>n. name n = nm) (nodes g) = n # rest
           \<and> (if r \<in> set (input n)
                then g' = g\<lparr>nodes := update_first (\<lambda>m. name m = nm)
                             (\<lambda>m. m\<lparr>input := remove1 r (input m)\<rparr>) (nodes g)\<rparr>
                else g' = g)"
  using assms
  by (auto simp: strip_edge_def find_nodes_by_name_def split: list.splits if_splits)

lemma strip_edge_first_inputs:
  assumes "strip_edge g nm r = Inr g'"
  shows "find_nodes_by_name g' nm \<noteq> []"
    and "first_inputs g' nm = (if r \<in> set (first_inputs g nm) then remove1 r (first_inputs g nm)
                              else first_inputs g nm)"
    and "nm' \<noteq> nm \<Longrightarrow> find_nodes_by_name g' nm' = find_nodes_by_name g nm'"
proof -
  from strip_edge_cases [OF assms] obtain n rest where
    f: "filter (\<lambda>n. name n = nm) (nodes g) = n # rest" and
    c: "if r \<in> set (input n)
        then g' = g\<lparr>nodes := update_first (\<lambda>m. name m = nm)
                     (\<lambda>m. m\<lparr>input := remove1 r (input m)\<rparr>) (nodes g)\<rparr>
        else g' = g"
    by blast
  from c have
    y: "r \<in> set (input n) \<Longrightarrow>
         g' = g\<lparr>nodes := update_first (\<lambda>m. name m = nm)
                 (\<lambda>m. m\<lparr>input := remove1 r (input m)\<rparr>) (nodes g)\<rparr>" and
    z: "r \<notin> set (input n) \<Longrightarrow> g' = g"
    by (simp_all split: if_splits)
  show "find_nodes_by_name g' nm \<noteq> []"
  proof (cases "r \<in> set (input n)")
    case True
    from y [OF True] f show ?thesis
      by (simp add: find_nodes_by_name_def update_first_same_name)
  next
    case False
    from z [OF False] f show ?thesis by (simp add: find_nodes_by_name_def)
  qed
  show "first_inputs g' nm = (if r \<in> set (first_inputs g nm) then remove1 r (first_inputs g nm)
                              else first_inputs g nm)"
  proof (cases "r \<in> set (input n)")
    case True
    from y [OF True] f True show ?thesis
      by (simp add: first_inputs_def find_nodes_by_name_def update_first_same_name)
  next
    case False
    from z [OF False] f False show ?thesis
      by (simp add: first_inputs_def find_nodes_by_name_def)
  qed
  show "nm' \<noteq> nm \<Longrightarrow> find_nodes_by_name g' nm' = find_nodes_by_name g nm'"
  proof (cases "r \<in> set (input n)")
    case True
    assume "nm' \<noteq> nm"
    with y [OF True] show ?thesis
      by (simp add: find_nodes_by_name_def update_first_other_name)
  next
    case False
    from z [OF False] show ?thesis by simp
  qed
qed

lemma strip_edge_count:
  assumes "strip_edge g nm r = Inr g'"
  shows "count_list (first_inputs g' nm) r = count_list (first_inputs g nm) r - 1"
  using strip_edge_first_inputs(2) [OF assms]
  by (simp add: count_list_remove1 count_list_absent)

lemma count_zero_absent: "count_list xs x = 0 \<Longrightarrow> x \<notin> set xs"
  by (induction xs) (auto split: if_splits)

text \<open>
  C9 (amended). After namespace collapse, the residual-edge cleanup needs a node named
  Input and a node named NMS, and it deletes one occurrence of \<^verbatim>\<open>image_tensor:0\<close> from the
  inputs of the first node named Input and one occurrence of \<^verbatim>\<open>Input\<close> from the inputs of
  the first node named NMS. So where each of these references occurs at most once before
  the cleanup, neither is listed after it.
\<close>

theorem residual_edges_stripped:
  assumes "snd (run_passes trt_major spec [StripInputEdge, StripNMSEdge] g) = Inr g'"
  shows "find_nodes_by_name g' ''Input'' \<noteq> [] \<and> find_nodes_by_name g' ''NMS'' \<noteq> []
         \<and> count_list (first_inputs g' ''Input'') ''image_tensor:0''
             = count_list (first_inputs g ''Input'') ''image_tensor:0'' - 1
         \<and> count_list (first_inputs g' ''NMS'') ''Input''
             = count_list (first_inputs g ''NMS'') ''Input'' - 1
         \<and> (count_list (first_inputs g ''Input'') ''image_tensor:0'' \<le> 1
              \<longrightarrow> ''image_tensor:0'' \<notin> set (first_inputs g' ''Input''))
         \<and> (count_list (first_inputs g ''NMS'') ''Input'' \<le> 1
              \<longrightarrow> ''Input'' \<notin> set (first_inputs g' ''NMS''))"
proof -
  from assms obtain g1 where
    s1: "strip_edge g ''Input'' ''image_tensor:0'' = Inr g1" and
    s2: "strip_edge g1 ''NMS'' ''Input'' = Inr g'"
    by (auto simp: split_beta split: sum.splits)
  have ne: "''Input'' \<noteq> ''NMS''" "''NMS'' \<noteq> ''Input''" by simp_all
  have i1: "find_nodes_by_name g1 ''NMS'' = find_nodes_by_name g ''NMS''"
    using strip_edge_first_inputs(3) [OF s1 ne(2)] .
  have i2: "find_nodes_by_name g' ''Input'' = find_nodes_by_name g1 ''Input''"
    using strip_edge_first_inputs(3) [OF s2 ne(1)] .
  have a: "find_nodes_by_name g' ''NMS'' \<noteq> []"
    using strip_edge_first_inputs(1) [OF s2] .
  have b: "find_nodes_by_name g' ''Input'' \<noteq> []"
    using strip_edge_first_inputs(1) [OF s1] i2 by simp
  have c: "count_list (first_inputs g' ''Input'') ''image_tensor:0''
           = count_list (first_inputs g ''Input'') ''image_tensor:0'' - 1"
    using strip_edge_count [OF s1] i2 by (simp add: first_inputs_def)
  have d: "count_list (first_inputs g' ''NMS'') ''Input''
           = count_list (first_inputs g ''NMS'') ''Input'' - 1"
    using strip_edge_count [OF s2] i1 by (simp add: first_inputs_def)
  have e: "count_list (first_inputs g ''Input'') ''image_tensor:0'' \<le> 1
           \<longrightarrow> ''image_tensor:0'' \<notin> set (first_inputs g' ''Input'')"
  proof
    assume "count_list (first_inputs g ''Input'') ''image_tensor:0'' \<le> 1"
    with c have "count_list (first_inputs g' ''Input'') ''image_tensor:0'' = 0" by arith
    then show "''image_tensor:0'' \<notin> set (first_inputs g' ''Input'')" by (rule count_zero_absent)
  qed
  have f: "count_list (first_inputs g ''NMS'') ''Input'' \<le> 1
           \<longrightarrow> ''Input'' \<notin> set (first_inputs g' ''NMS'')"
  proof
    assume "count_list (first_inputs g ''NMS'') ''Input'' \<le> 1"
    with d have "count_list (first_inputs g' ''NMS'') ''Input'' = 0" by arith
    then show "''Input'' \<notin> set (first_inputs g' ''NMS'')" by (rule count_zero_absent)
  qed
  from a b c d e f show ?thesis by blast
qed

theorem residual_edges_stripped_witness:
  "snd (run_passes CHR ''8'' v1_coco through_collapse ssd_graph) = Inr ssd_collapsed
   \<and> first_inputs ssd_collapsed ''Input'' = [''image_tensor:0'']
   \<and> first_inputs ssd_collapsed ''NMS''
       = [''FeatureExtractor/add'', ''MultipleGridAnchorGenerator'', ''Input'']
   \<and> snd (run_passes CHR ''8'' v1_coco [StripInputEdge, StripNMSEdge] ssd_collapsed)
       = Inr \<lparr>nodes = [Input,
                       mk ''FeatureExtractor/add'' ''AddV2'' [''Input''],
                       PriorBox v1_coco,
                       (NMS v1_coco)\<lparr>input := [''FeatureExtractor/add'',
                                                 ''MultipleGridAnchorGenerator'']\<rparr>],
              graph_outputs = [''NMS'']\<rparr>
   \<and> ''image_tensor:0'' \<notin> set (first_inputs
        \<lparr>nodes = [Input,
                  mk ''FeatureExtractor/add'' ''AddV2'' [''Input''],
                  PriorBox v1_coco,
                  (NMS v1_coco)\<lparr>input := [''FeatureExtractor/add'',
                                            ''MultipleGridAnchorGenerator'']\<rparr>],
         graph_outputs = [''NMS'']\<rparr> ''Input'')
   \<and> ''Input'' \<notin> set (first_inputs
        \<lparr>nodes = [Input,
                  mk ''FeatureExtractor/add'' ''AddV2'' [''Input''],
                  PriorBox v1_coco,
                  (NMS v1_coco)\<lparr>input := [''FeatureExtractor/add'',
                                            ''MultipleGridAnchorGenerator'']\<rparr>],
         graph_outputs = [''NMS'']\<rparr> ''NMS'')"
proof -
  let ?g' = "\<lparr>nodes = [Input,
                       mk ''FeatureExtractor/add'' ''AddV2'' [''Input''],
                       PriorBox v1_coco,
                       (NMS v1_coco)\<lparr>input := [''FeatureExtractor/add'',
                                                 ''MultipleGridAnchorGenerator'']\<rparr>],
              graph_outputs = [''NMS'']\<rparr>"
  have h: "snd (run_passes CHR ''8'' v1_coco [StripInputEdge, StripNMSEdge] ssd_collapsed) = Inr ?g'"
    by (simp add: eval_defs ssd_collapsed_def)
  have i: "first_inputs ssd_collapsed ''Input'' = [''image_tensor:0'']"
    by (simp add: first_inputs_def find_nodes_by_name_def ssd_collapsed_def plugin_sel mk_def)
  have n: "first_inputs ssd_collapsed ''NMS''
           = [''FeatureExtractor/add'', ''MultipleGridAnchorGenerator'', ''Input'']"
    by (simp add: first_inputs_def find_nodes_by_name_def ssd_collapsed_def plugin_sel mk_def)
  note r = residual_edges_stripped [OF h]
  from r i have a: "''image_tensor:0'' \<notin> set (first_inputs ?g' ''Input'')" by simp
  from r n have b: "''Input'' \<notin> set (first_inputs ?g' ''NMS'')" by simp
  from ssd_collapse_run i n h a b show ?thesis by blast
qed

text \<open>
  C9 as stated holds for every graph. On a graph whose node NMS consumes the node Input
  twice, NMS still lists Input after collapse and cleanup: one occurrence was deleted.
\<close>

theorem doubled_edge_survives_cleanup:
  "map_sum id (\<lambda>g. first_inputs g ''NMS'')
     (snd (run_passes CHR ''8'' v1_coco through_cleanup doubled_edge_graph))
   = Inr [''Input'']"
  by (simp add: doubled_edge_run first_inputs_def find_nodes_by_name_def mk_def)

section \<open>The anchor input\<close>

lemma filter_map_fixed:
  assumes "\<forall>n\<in>set ns. P n \<longrightarrow> f n = n" and "\<forall>n. P (f n) = P n"
  shows "filter P (map f ns) = filter P ns"
  using assms by (induction ns) auto

lemma filter_update_first_fixed:
  assumes "\<forall>n\<in>set ns. P n \<longrightarrow> f n = n" and "\<forall>n. P (f n) = P n"
  shows "filter P (update_first Q f ns) = filter P ns"
  using assms by (induction ns) auto

lemma filter_update_first_same:
  "\<forall>x. P (f x) = P x \<Longrightarrow>
   filter P (update_first P f ns) = (case filter P ns of [] \<Rightarrow> [] | n # rest \<Rightarrow> f n # rest)"
  by (induction ns) auto

lemma update_first_keeps: "\<not> P c \<Longrightarrow> c \<in> set ns \<Longrightarrow> c \<in> set (update_first P f ns)"
  by (induction ns) auto

lemma inputless_subseq: "subseq xs ys \<Longrightarrow> inputless ys \<Longrightarrow> inputless xs"
  by (auto simp: inputless_def dest: list_emb_set)

lemma subseq_single: "subseq xs [y] \<Longrightarrow> xs = [y] \<or> xs = []"
  by (cases xs) (simp_all split: if_splits)

lemma generators_replace:
  "find_nodes_by_op (replace_fusedbnv3 (replace_addv2 g)) ''GridAnchor_TRT''
   = find_nodes_by_op g ''GridAnchor_TRT''"
  by (simp add: find_nodes_by_op_def replace_fusedbnv3_eval replace_addv2_eval filter_map_fixed)

lemma generators_strip_edge:
  assumes "inputless (find_nodes_by_op g ''GridAnchor_TRT'')" and "strip_edge g nm r = Inr g'"
  shows "find_nodes_by_op g' ''GridAnchor_TRT'' = find_nodes_by_op g ''GridAnchor_TRT''"
proof -
  have "filter (\<lambda>n. op n = ''GridAnchor_TRT'')
          (update_first (\<lambda>m. name m = nm) (\<lambda>m. m\<lparr>input := remove1 r (input m)\<rparr>) (nodes g))
        = filter (\<lambda>n. op n = ''GridAnchor_TRT'') (nodes g)"
    using assms(1)
    by (intro filter_update_first_fixed) (auto simp: inputless_def find_nodes_by_op_def)
  with strip_edge_cases [OF assms(2)] show ?thesis
    by (auto simp: find_nodes_by_op_def split: if_splits)
qed

lemma generators_remove_outright:
  assumes "inputless (find_nodes_by_op g ''GridAnchor_TRT'')"
  shows "subseq (find_nodes_by_op (remove_outright g names) ''GridAnchor_TRT'')
           (find_nodes_by_op g ''GridAnchor_TRT'')"
proof -
  let ?P = "\<lambda>n. op n = ''GridAnchor_TRT''"
  let ?R = "\<lambda>n. name n \<notin> set names"
  let ?k = "\<lambda>n. n\<lparr>input := filter (\<lambda>r. ref_name r \<notin> set names) (input n)\<rparr>"
  have "filter ?P (map ?k (filter ?R (nodes g))) = filter ?P (filter ?R (nodes g))"
    using assms by (intro filter_map_fixed) (auto simp: inputless_def find_nodes_by_op_def)
  also have "\<dots> = filter ?R (filter ?P (nodes g))"
    by (simp add: conj_commute)
  finally have "find_nodes_by_op (remove_outright g names) ''GridAnchor_TRT''
                = filter ?R (find_nodes_by_op g ''GridAnchor_TRT'')"
    by (simp add: find_nodes_by_op_def remove_outright_def)
  then show ?thesis by simp
qed

lemma generators_forward_one:
  assumes "inputless (find_nodes_by_op g ''GridAnchor_TRT'')" and "forward_one g nm = Inr g'"
  shows "subseq (find_nodes_by_op g' ''GridAnchor_TRT'') (find_nodes_by_op g ''GridAnchor_TRT'')"
proof (cases "g' = g")
  case True
  then show ?thesis by simp
next
  case False
  let ?P = "\<lambda>n. op n = ''GridAnchor_TRT''"
  from assms(2) False obtain r where
    g': "g' = remove_outright
               (g\<lparr>nodes := map (\<lambda>m. if name m = nm then m
                       else m\<lparr>input := map (\<lambda>x. if ref_name x = nm then r else x) (input m)\<rparr>)
                     (nodes g)\<rparr>) [nm]"
    by (auto simp: forward_one_def split: list.splits)
  let ?h = "g\<lparr>nodes := map (\<lambda>m. if name m = nm then m
                       else m\<lparr>input := map (\<lambda>x. if ref_name x = nm then r else x) (input m)\<rparr>)
                     (nodes g)\<rparr>"
  have "filter ?P (nodes ?h) = filter ?P (nodes g)"
    using assms(1) unfolding select_convs
    by (simp, intro filter_map_fixed) (auto simp: inputless_def find_nodes_by_op_def)
  then have same: "find_nodes_by_op ?h ''GridAnchor_TRT'' = find_nodes_by_op g ''GridAnchor_TRT''"
    by (simp add: find_nodes_by_op_def)
  with assms(1) have "inputless (find_nodes_by_op ?h ''GridAnchor_TRT'')" by simp
  from generators_remove_outright [OF this, of "[nm]"] same g' show ?thesis by simp
qed

lemma generators_forward_inputs:
  "inputless (find_nodes_by_op g ''GridAnchor_TRT'') \<Longrightarrow> forward_inputs g nms = Inr g'
   \<Longrightarrow> subseq (find_nodes_by_op g' ''GridAnchor_TRT'') (find_nodes_by_op g ''GridAnchor_TRT'')"
proof (induction nms arbitrary: g)
  case Nil
  then show ?case by simp
next
  case (Cons nm nms)
  from Cons.prems(2) obtain g1 where
    g1: "forward_one g nm = Inr g1" "forward_inputs g1 nms = Inr g'"
    by (auto split: sum.splits)
  have s1: "subseq (find_nodes_by_op g1 ''GridAnchor_TRT'') (find_nodes_by_op g ''GridAnchor_TRT'')"
    using Cons.prems(1) g1(1) by (rule generators_forward_one)
  then have "inputless (find_nodes_by_op g1 ''GridAnchor_TRT'')"
    using Cons.prems(1) by (rule inputless_subseq)
  from Cons.IH [OF this g1(2)] s1 show ?case
    by (rule subseq_order.trans)
qed

lemma generators_forward_squeeze:
  "inputless (find_nodes_by_op g ''GridAnchor_TRT'') \<Longrightarrow> forward_squeeze g = Inr g'
   \<Longrightarrow> subseq (find_nodes_by_op g' ''GridAnchor_TRT'') (find_nodes_by_op g ''GridAnchor_TRT'')"
  by (auto simp: forward_squeeze_def split: list.splits intro: generators_forward_inputs)

lemma generators_drop_anchors:
  "inputless (find_nodes_by_op g ''GridAnchor_TRT'')
   \<Longrightarrow> subseq (find_nodes_by_op (drop_anchors g) ''GridAnchor_TRT'')
         (find_nodes_by_op g ''GridAnchor_TRT'')"
  by (simp add: drop_anchors_def remove_nodes_def generators_remove_outright)

lemma anchor_repair_inputless:
  assumes "find_nodes_by_op g ''GridAnchor_TRT'' = [G]" and "input G = []"
  shows "\<exists>g'. anchor_repair g = Inr g'
           \<and> find_nodes_by_op g' ''GridAnchor_TRT'' = [G\<lparr>input := [''AnchorInput'']\<rparr>]
           \<and> \<lparr>name = ''AnchorInput'', op = ''Const'', input = [],
               attr = [(''value'', FloatListV [1, 1])]\<rparr> \<in> set (nodes g')"
proof -
  let ?P = "\<lambda>n. op n = ''GridAnchor_TRT''"
  let ?c = "\<lparr>name = ''AnchorInput'', op = ''Const'', input = [],
              attr = [(''value'', FloatListV [1, 1])]\<rparr>"
  let ?ns = "update_first ?P (\<lambda>n. n\<lparr>input := ''AnchorInput'' # input n\<rparr>) (nodes g @ [?c])"
  from assms(1) have f: "filter ?P (nodes g) = [G]"
    by (simp add: find_nodes_by_op_def)
  then have f': "filter ?P (nodes g @ [?c]) = [G]" by simp
  have r: "anchor_repair g = Inr (g\<lparr>nodes := ?ns\<rparr>)"
    using assms f
    by (simp add: anchor_repair_def add_anchor_input_def Let_def append_node_def
        create_node_def find_nodes_by_op_def)
  have "filter ?P ?ns = (case filter ?P (nodes g @ [?c]) of [] \<Rightarrow> []
          | n # rest \<Rightarrow> n\<lparr>input := ''AnchorInput'' # input n\<rparr> # rest)"
    by (rule filter_update_first_same) simp
  with f' assms(2) have a: "find_nodes_by_op (g\<lparr>nodes := ?ns\<rparr>) ''GridAnchor_TRT''
                            = [G\<lparr>input := [''AnchorInput'']\<rparr>]"
    by (simp add: find_nodes_by_op_def)
  have "?c \<in> set ?ns"
    by (rule update_first_keeps) simp_all
  with r a show ?thesis by simp
qed

lemma anchor_repair_needs_generator:
  "find_nodes_by_op g ''GridAnchor_TRT'' = [] \<Longrightarrow> anchor_repair g = Inl IndexError"
  by (simp add: anchor_repair_def)

text \<open>
  C3. For every graph that after namespace collapse has one GridAnchor_TRT node, and that
  node without inputs: the repair of lines 253-254 raises nothing, and a run of the
  remaining passes that returns a graph returns it with that node having exactly one
  input, \<^verbatim>\<open>AnchorInput\<close>, where AnchorInput is an appended Const node whose value is the
  2-element vector 1.0, 1.0.
\<close>

theorem anchor_input_repair:
  assumes "find_nodes_by_op g ''GridAnchor_TRT'' = [G]" and "input G = []"
  shows "(\<exists>g2. anchor_repair g = Inr g2)
         \<and> (\<forall>g'. snd (run_passes trt_major spec after_collapse g) = Inr g'
               \<longrightarrow> find_nodes_by_op g' ''GridAnchor_TRT'' = [G\<lparr>input := [''AnchorInput'']\<rparr>]
                   \<and> \<lparr>name = ''AnchorInput'', op = ''Const'', input = [],
                       attr = [(''value'', FloatListV [1, 1])]\<rparr> \<in> set (nodes g'))"
proof (rule conjI)
  from anchor_repair_inputless [OF assms] show "\<exists>g2. anchor_repair g = Inr g2" by blast
next
  let ?GA = "\<lambda>g. find_nodes_by_op g ''GridAnchor_TRT''"
  let ?c = "\<lparr>name = ''AnchorInput'', op = ''Const'', input = [],
              attr = [(''value'', FloatListV [1, 1])]\<rparr>"
  show "\<forall>g'. snd (run_passes trt_major spec after_collapse g) = Inr g'
          \<longrightarrow> ?GA g' = [G\<lparr>input := [''AnchorInput'']\<rparr>] \<and> ?c \<in> set (nodes g')"
  proof (intro allI impI)
    fix g'
    assume run: "snd (run_passes trt_major spec after_collapse g) = Inr g'"
    from run obtain g3 g4 g5 g7 where
      s3: "strip_edge (replace_fusedbnv3 (replace_addv2 g)) ''Input'' ''image_tensor:0'' = Inr g3" and
      s4: "strip_edge g3 ''NMS'' ''Input'' = Inr g4" and
      s5: "forward_squeeze g4 = Inr g5" and
      s7: "anchor_repair (drop_anchors g5) = Inr g7" and
      s8: "check_outputs g7 = Inr g'"
      by (rule after_collapse_steps)
    have il: "inputless [G]" using assms(2) by (simp add: inputless_def)
    have g2: "?GA (replace_fusedbnv3 (replace_addv2 g)) = [G]"
      using assms(1) by (simp add: generators_replace)
    with il generators_strip_edge [OF _ s3] have g3: "?GA g3 = [G]" by simp
    with il generators_strip_edge [OF _ s4] have g4: "?GA g4 = [G]" by simp
    with il generators_forward_squeeze [OF _ s5] have g5: "subseq (?GA g5) [G]" by simp
    then have il5: "inputless (?GA g5)" using il by (rule inputless_subseq)
    from generators_drop_anchors [OF il5] g5 have "subseq (?GA (drop_anchors g5)) [G]"
      by (rule subseq_order.trans)
    then have "?GA (drop_anchors g5) = [G] \<or> ?GA (drop_anchors g5) = []"
      by (rule subseq_single)
    moreover have "?GA (drop_anchors g5) \<noteq> []"
    proof
      assume "?GA (drop_anchors g5) = []"
      then have "anchor_repair (drop_anchors g5) = Inl IndexError"
        by (rule anchor_repair_needs_generator)
      with s7 show False by simp
    qed
    ultimately have g6: "?GA (drop_anchors g5) = [G]" by blast
    from anchor_repair_inputless [OF g6 assms(2)] obtain h where
      h: "anchor_repair (drop_anchors g5) = Inr h"
         "?GA h = [G\<lparr>input := [''AnchorInput'']\<rparr>]" "?c \<in> set (nodes h)"
      by blast
    from h(1) s7 have "h = g7" by simp
    moreover from s8 have "g' = g7" by (rule check_outputs_same)
    ultimately show "?GA g' = [G\<lparr>input := [''AnchorInput'']\<rparr>] \<and> ?c \<in> set (nodes g')"
      using h(2,3) by simp
  qed
qed

theorem anchor_input_repair_witness:
  "snd (run_passes CHR ''8'' v1_coco through_collapse ssd_graph) = Inr ssd_collapsed
   \<and> find_nodes_by_op ssd_collapsed ''GridAnchor_TRT'' = [PriorBox v1_coco]
   \<and> input (PriorBox v1_coco) = []
   \<and> snd (run_passes CHR ''8'' v1_coco after_collapse ssd_collapsed) = Inr ssd_final
   \<and> find_nodes_by_op ssd_final ''GridAnchor_TRT''
       = [(PriorBox v1_coco)\<lparr>input := [''AnchorInput'']\<rparr>]
   \<and> anchor_const \<in> set (nodes ssd_final)"
proof -
  have h1: "find_nodes_by_op ssd_collapsed ''GridAnchor_TRT'' = [PriorBox v1_coco]"
    by (simp add: find_nodes_by_op_def ssd_collapsed_def plugin_sel mk_def)
  have h2: "input (PriorBox v1_coco) = []"
    by (simp add: plugin_sel)
  note r = anchor_input_repair [OF h1 h2, of "CHR ''8''" v1_coco]
  from r ssd_after_collapse_run
  have "find_nodes_by_op ssd_final ''GridAnchor_TRT''
          = [(PriorBox v1_coco)\<lparr>input := [''AnchorInput'']\<rparr>]
        \<and> anchor_const \<in> set (nodes ssd_final)"
    unfolding anchor_const_def by blast
  with ssd_collapse_run h1 h2 ssd_after_collapse_run show ?thesis by blast
qed

end
